theory Spec2Isabelle
  imports Complex_Main "HOL-Library.AList" "HOL-Library.Multiset" "HOL-Library.Product_Lexorder"
begin

section \<open>Strings\<close>

text \<open>
  The service (class \<open>RedditUltraSearchService\<close>) works on JavaScript strings. They are
  modelled as \<open>string\<close> (a list of 8-bit characters), which agrees with JavaScript on
  ASCII text: \<open>toLowerCase\<close> and \<open>toUpperCase\<close> move the 26 letters and leave every other
  character alone, and \<open>length\<close> counts characters.
\<close>

definition lower_char :: "char \<Rightarrow> char" where
  "lower_char c =
     (let n = (of_char c :: nat) in if 65 \<le> n \<and> n \<le> 90 then char_of (n + 32) else c)"

definition upper_char :: "char \<Rightarrow> char" where
  "upper_char c =
     (let n = (of_char c :: nat) in if 97 \<le> n \<and> n \<le> 122 then char_of (n - 32) else c)"

definition toLowerCase :: "string \<Rightarrow> string" where
  "toLowerCase s = map lower_char s"

definition toUpperCase :: "string \<Rightarrow> string" where
  "toUpperCase s = map upper_char s"

text \<open>\<open>s.startsWith(p)\<close>, and the regular-expression anchor \<open>^p\<close> for a literal \<open>p\<close>.\<close>

fun startsWith :: "string \<Rightarrow> string \<Rightarrow> bool" where
  "startsWith s [] = True"
| "startsWith [] (p # ps) = False"
| "startsWith (c # cs) (p # ps) = (c = p \<and> startsWith cs ps)"

text \<open>\<open>s.includes(t)\<close>: \<open>t\<close> occurs in \<open>s\<close> as a contiguous substring.\<close>

fun includes_str :: "string \<Rightarrow> string \<Rightarrow> bool" where
  "includes_str [] t = (t = [])"
| "includes_str (c # cs) t = (startsWith (c # cs) t \<or> includes_str cs t)"

section \<open>Candidate links\<close>

text \<open>
  The objects built by \<open>createUltraTelegramResult\<close>, \<open>createUltraAdvancedTelegramLink\<close> and
  \<open>inferPossibleTelegramLinks\<close>. Only the fields read or written by the stages below are
  kept; \<open>metadata.redditSource\<close> is the candidate's own provenance entry, and
  \<open>metadata.mergedSources\<close> is absent (\<open>None\<close>) until the deduplicator creates it, and
  \<open>metadata.enrichment\<close> until \<open>enrichMetadata\<close> attaches it (its \<open>searchTimestamp\<close>, a
  clock reading, and its \<open>recommendationReason\<close>, a display text, are left out).
  A numeric field that can be \<open>undefined\<close> is an \<open>option\<close>; \<open>confidence\<close> is a JavaScript
  number that the scorers make fractional, modelled as an exact rational.
\<close>

record reddit_source =
  postUrl :: string
  postTitle :: string
  redditScore :: "int option"
  foundIn :: string

record enrichment =
  originalSearchUsername :: string
  confidenceLevel :: string
  qualityScore :: rat

record link_metadata =
  searchMethod :: string
  isInviteLink :: bool
  redditSource :: reddit_source
  mergedSources :: "reddit_source list option"
  enrichment :: "enrichment option"

record link =
  url :: string
  username :: string
  confidence :: rat
  verified :: bool
  metadata :: link_metadata

text \<open>\<open>x || d\<close> on a number: \<open>0\<close> is falsy, so it is replaced by the default as well.\<close>

definition num_or :: "'a::zero \<Rightarrow> 'a \<Rightarrow> 'a" where
  "num_or x d = (if x = 0 then d else x)"

text \<open>
  A value that may be \<open>undefined\<close>, with its fallback: the default of a destructuring
  pattern, and \<open>x || d\<close> where every defined \<open>x\<close> is truthy or equal to \<open>d\<close> (an array, or a
  string with the fallback \<open>''\<close>).
\<close>

definition undef_or :: "'a option \<Rightarrow> 'a \<Rightarrow> 'a" where
  "undef_or x d = (case x of None \<Rightarrow> d | Some v \<Rightarrow> v)"

text \<open>\<open>score || 0\<close> on a number that may be \<open>undefined\<close>.\<close>

definition score_or0 :: "int option \<Rightarrow> int" where
  "score_or0 x = (case x of None \<Rightarrow> 0 | Some v \<Rightarrow> v)"

section \<open>Deduplicator\<close>

text \<open>
  \<open>normalizeTelegramUrl\<close>: lowercase, then \<open>replace(/^https?:\/\//, '')\<close>,
  \<open>replace(/^www\./, '')\<close> and \<open>replace(/\/$/, '')\<close>, each removing at most one match.
\<close>

definition strip_scheme :: "string \<Rightarrow> string" where
  "strip_scheme s =
     (if startsWith s ''https://'' then drop 8 s
      else if startsWith s ''http://'' then drop 7 s
      else s)"

definition strip_www :: "string \<Rightarrow> string" where
  "strip_www s = (if startsWith s ''www.'' then drop 4 s else s)"

definition strip_trailing_slash :: "string \<Rightarrow> string" where
  "strip_trailing_slash s = (if s \<noteq> [] \<and> last s = CHR ''/'' then butlast s else s)"

definition normalizeTelegramUrl :: "string \<Rightarrow> string" where
  "normalizeTelegramUrl u = strip_trailing_slash (strip_www (strip_scheme (toLowerCase u)))"

text \<open>
  The \<open>Map\<close> named \<open>uniqueLinks\<close> is an association list in insertion order:
  \<open>Map.set\<close> on a key already present replaces the value in place, on a new key it appends
  (\<^const>\<open>AList.update\<close>); \<open>Array.from(uniqueLinks.values())\<close> is \<open>map snd\<close>.
\<close>

definition dedup_key :: "link \<Rightarrow> string" where
  "dedup_key l = toLowerCase (normalizeTelegramUrl (url l))"

text \<open>The two branches of a collision: the incoming link replaces the stored one, or is absorbed.\<close>

definition merge_replace :: "link \<Rightarrow> link \<Rightarrow> link" where
  "merge_replace l existing =
     l\<lparr>metadata := (metadata l)\<lparr>mergedSources :=
        Some (undef_or (mergedSources (metadata existing)) [] @ [redditSource (metadata existing)])\<rparr>\<rparr>"

definition merge_absorb :: "link \<Rightarrow> link \<Rightarrow> link" where
  "merge_absorb l existing =
     existing\<lparr>metadata := (metadata existing)\<lparr>mergedSources :=
        Some (undef_or (mergedSources (metadata existing)) [] @ [redditSource (metadata l)])\<rparr>\<rparr>"

text \<open>The body of \<open>links.forEach\<close>.\<close>

definition dedup_step :: "(string \<times> link) list \<Rightarrow> link \<Rightarrow> (string \<times> link) list" where
  "dedup_step uniqueLinks l =
     (let key = dedup_key l in
      case map_of uniqueLinks key of
        Some existing \<Rightarrow>
          if num_or (confidence l) 0 > num_or (confidence existing) 0
          then AList.update key (merge_replace l existing) uniqueLinks
          else AList.update key (merge_absorb l existing) uniqueLinks
      | None \<Rightarrow> AList.update key l uniqueLinks)"

definition ultraIntelligentDeduplication :: "link list \<Rightarrow> link list" where
  "ultraIntelligentDeduplication links = map snd (foldl dedup_step [] links)"

text \<open>The invariant of the loop: keys are distinct and every stored link sits under its own key.\<close>

definition keyed :: "(string \<times> link) list \<Rightarrow> bool" where
  "keyed m = (distinct (map fst m) \<and> list_all (\<lambda>(k, l). dedup_key l = k) m)"

text \<open>
  A candidate's provenance: its own source entry followed by the merged ones. The ranker
  counts it the same way (\<open>mergedSources.length + 1\<close>).
\<close>

definition provenance :: "link \<Rightarrow> reddit_source list" where
  "provenance l = redditSource (metadata l) # undef_or (mergedSources (metadata l)) []"


section \<open>Sample candidates\<close>

text \<open>Concrete sources and candidates on which the theorems below are evaluated.\<close>

definition src_a :: reddit_source where
  "src_a = \<lparr>postUrl = ''https://reddit.com/r/telegram/comments/1'',
            postTitle = ''Join sample_chan'',
            redditScore = Some 12, foundIn = ''r/telegram''\<rparr>"

definition src_b :: reddit_source where
  "src_b = \<lparr>postUrl = ''https://reddit.com/r/crypto/comments/2'',
            postTitle = ''Official channel'',
            redditScore = Some 60, foundIn = ''r/crypto''\<rparr>"

definition src_c :: reddit_source where
  "src_c = \<lparr>postUrl = ''https://reddit.com/r/news/comments/3'',
            postTitle = ''SCAM fake giveaway'',
            redditScore = None, foundIn = ''r/unknown''\<rparr>"

definition link_a :: link where
  "link_a = \<lparr>url = ''https://t.me/sample_chan'', username = ''sample_chan'',
             confidence = 80, verified = False,
             metadata = \<lparr>searchMethod = ''ultra_extraction'', isInviteLink = False,
                         redditSource = src_a, mergedSources = None, enrichment = None\<rparr>\<rparr>"

text \<open>The same destination written differently, with the same confidence.\<close>

definition link_b :: link where
  "link_b = \<lparr>url = ''http://www.T.me/Sample_Chan/'', username = ''Sample_Chan'',
             confidence = 80, verified = False,
             metadata = \<lparr>searchMethod = ''ultra_extraction'', isInviteLink = False,
                         redditSource = src_b, mergedSources = None, enrichment = None\<rparr>\<rparr>"

text \<open>The same destination with a higher confidence, already carrying two merged sources.\<close>

definition link_c :: link where
  "link_c = \<lparr>url = ''t.me/sample_chan'', username = ''sample_chan'',
             confidence = 90, verified = False,
             metadata = \<lparr>searchMethod = ''inference'', isInviteLink = False,
                         redditSource = src_c, mergedSources = Some [src_a, src_b],
                         enrichment = None\<rparr>\<rparr>"

text \<open>A freshly extracted candidate for another destination.\<close>

definition src_d :: reddit_source where
  "src_d = \<lparr>postUrl = ''https://reddit.com/r/telegram/comments/4'',
            postTitle = ''Verified channel list'',
            redditScore = Some 300, foundIn = ''r/telegram''\<rparr>"

definition link_d :: link where
  "link_d = \<lparr>url = ''https://telegram.me/other_chan'', username = ''other_chan'',
             confidence = 60, verified = False,
             metadata = \<lparr>searchMethod = ''ultra_extraction'', isInviteLink = False,
                         redditSource = src_d, mergedSources = None, enrichment = None\<rparr>\<rparr>"





section \<open>Confidence scorers\<close>

text \<open>\<open>Math.min(Math.max(confidence, 0), 100)\<close>, the last line of every scorer.\<close>

definition clamp100 :: "rat \<Rightarrow> rat" where
  "clamp100 c = min (max c 0) 100"

text \<open>
  \<open>levenshteinDistance(str1, str2)\<close> fills \<open>matrix[i][j]\<close> for \<open>i\<close> up to \<open>str2.length\<close> and
  \<open>j\<close> up to \<open>str1.length\<close>; \<open>lev_cell str1 str2 i j\<close> is the value stored in \<open>matrix[i][j]\<close>.
\<close>

fun lev_cell :: "string \<Rightarrow> string \<Rightarrow> nat \<Rightarrow> nat \<Rightarrow> nat" where
  "lev_cell str1 str2 0 j = j"
| "lev_cell str1 str2 (Suc i) 0 = Suc i"
| "lev_cell str1 str2 (Suc i) (Suc j) =
     (if str2 ! i = str1 ! j then lev_cell str1 str2 i j
      else min (lev_cell str1 str2 i j + 1)
             (min (lev_cell str1 str2 (Suc i) j + 1) (lev_cell str1 str2 i (Suc j) + 1)))"

definition levenshteinDistance :: "string \<Rightarrow> string \<Rightarrow> nat" where
  "levenshteinDistance str1 str2 = lev_cell str1 str2 (length str2) (length str1)"

text \<open>
  \<open>calculateUsernameSimilarity\<close>. The last branch is only reached with \<open>u1 \<noteq> u2\<close>, so
  \<open>maxLen\<close> is positive there.
\<close>

definition calculateUsernameSimilarity :: "string \<Rightarrow> string \<Rightarrow> rat" where
  "calculateUsernameSimilarity username1 username2 =
     (let u1 = toLowerCase username1; u2 = toLowerCase username2 in
      if u1 = u2 then 1
      else if includes_str u1 u2 \<or> includes_str u2 u1 then 8 / 10
      else let maxLen = max (length u1) (length u2);
               distance = levenshteinDistance u1 u2
           in max 0 ((of_nat maxLen - of_nat distance) / of_nat maxLen))"

text \<open>
  The fields of a Reddit post that \<open>calculateBasicConfidence\<close> reads. A comparison with
  \<open>undefined\<close> is false, and \<open>(data.subreddit || '')\<close> makes a missing subreddit empty.
\<close>

record post_data =
  score :: "int option"
  num_comments :: "int option"
  subreddit :: "string option"

definition gt_num :: "int option \<Rightarrow> int \<Rightarrow> bool" where
  "gt_num x n = (case x of None \<Rightarrow> False | Some v \<Rightarrow> v > n)"

definition lt_num :: "int option \<Rightarrow> int \<Rightarrow> bool" where
  "lt_num x n = (case x of None \<Rightarrow> False | Some v \<Rightarrow> v < n)"

definition bonus :: "bool \<Rightarrow> rat \<Rightarrow> rat" where
  "bonus b n = (if b then n else 0)"

definition calculateBasicConfidence :: "post_data \<Rightarrow> string \<Rightarrow> rat" where
  "calculateBasicConfidence data uname =
     (let sub = toLowerCase (undef_or (subreddit data) '''') in
      clamp100 (50
        + bonus (gt_num (score data) 10) 10
        + bonus (gt_num (score data) 50) 15
        + bonus (gt_num (score data) 100) 20
        + bonus (gt_num (num_comments data) 5) 5
        + bonus (gt_num (num_comments data) 20) 10
        + bonus (includes_str sub ''telegram'') 25
        + bonus (includes_str sub ''crypto'') 15
        - bonus (lt_num (score data) 0) 20))"

text \<open>
  \<open>calculateAdvancedConfidence\<close>; \<open>patternBonuses[patternIndex] || 10\<close> gives 10 beyond the
  ten entries of the table (the extractor has seventeen patterns). The third argument is
  \<open>sourceResult.metadata?.score\<close>.
\<close>

definition patternBonuses :: "rat list" where
  "patternBonuses = [25, 25, 30, 30, 15, 20, 20, 10, 15, 10]"

definition pattern_bonus :: "nat \<Rightarrow> rat" where
  "pattern_bonus patternIndex =
     (if patternIndex < length patternBonuses then num_or (patternBonuses ! patternIndex) 10 else 10)"

definition calculateAdvancedConfidence :: "string \<Rightarrow> int option \<Rightarrow> string \<Rightarrow> nat \<Rightarrow> rat" where
  "calculateAdvancedConfidence extractedUsername sourceScore searchUsername patternIndex =
     (let redditScore = score_or0 sourceScore in
      clamp100 (50
        + pattern_bonus patternIndex
        + calculateUsernameSimilarity extractedUsername searchUsername * 30
        + bonus (redditScore > 10) 10
        + bonus (redditScore > 50) 15))"

text \<open>
  \<open>ultraAdvancedScoring\<close>, one named contribution for each block of the loop body, added in
  the order of the source.
\<close>

definition similarity_bonus :: "string \<Rightarrow> string \<Rightarrow> rat" where
  "similarity_bonus uname searchUsername = calculateUsernameSimilarity uname searchUsername * 30"

definition popularity_bonus :: "int option \<Rightarrow> rat" where
  "popularity_bonus s =
     (let redditScore = score_or0 s in
      bonus (redditScore > 10) 10 + bonus (redditScore > 50) 15 + bonus (redditScore > 200) 20)"

definition specialization_bonus :: "string \<Rightarrow> rat" where
  "specialization_bonus found =
     (let sub = toLowerCase found in
      bonus (includes_str sub ''telegram'') 25 + bonus (includes_str sub ''crypto'') 15)"

definition method_bonus :: "string \<Rightarrow> rat" where
  "method_bonus m =
     (if m = ''direct_extraction'' then 20
      else if m = ''pattern_match'' then 15
      else if m = ''reverse_search'' then 10
      else if m = ''inference'' then 5
      else 0)"

definition handle_bonus :: "bool \<Rightarrow> rat" where
  "handle_bonus invite = bonus (\<not> invite) 10"

definition corroboration_bonus :: "reddit_source list option \<Rightarrow> rat" where
  "corroboration_bonus ms = of_nat (length (undef_or ms [])) * 5"

definition trust_bonus :: "string \<Rightarrow> rat" where
  "trust_bonus title =
     (let context = toLowerCase title in
      bonus (includes_str context ''official'') 15 + bonus (includes_str context ''verified'') 15)"

definition scam_penalty :: "string \<Rightarrow> rat" where
  "scam_penalty title =
     (let context = toLowerCase title in
      bonus (includes_str context ''scam'' \<or> includes_str context ''fake'') 25)"

definition score_link :: "string \<Rightarrow> link \<Rightarrow> link" where
  "score_link searchUsername l =
     (let src = redditSource (metadata l) in
      l\<lparr>confidence := clamp100 (num_or (confidence l) 50
            + similarity_bonus (username l) searchUsername
            + popularity_bonus (redditScore src)
            + specialization_bonus (foundIn src)
            + method_bonus (searchMethod (metadata l))
            + handle_bonus (isInviteLink (metadata l))
            + corroboration_bonus (mergedSources (metadata l))
            + trust_bonus (postTitle src)
            - scam_penalty (postTitle src))\<rparr>)"

definition ultraAdvancedScoring :: "link list \<Rightarrow> string \<Rightarrow> link list" where
  "ultraAdvancedScoring links searchUsername = map (score_link searchUsername) links"

text \<open>A popular post in a specialised subreddit.\<close>

definition post_a :: post_data where
  "post_a = \<lparr>score = Some 120, num_comments = Some 30, subreddit = Some ''TelegramCrypto''\<rparr>"

text \<open>A downvoted post without comments or subreddit.\<close>

definition post_b :: post_data where
  "post_b = \<lparr>score = Some (- 3), num_comments = None, subreddit = None\<rparr>"

section \<open>Quality filter\<close>

definition commonWords :: "string list" where
  "commonWords =
     [''telegram'', ''channel'', ''group'', ''admin'', ''support'', ''help'',
      ''about'', ''contact'', ''join'', ''invite'', ''link'', ''chat'',
      ''the'', ''and'', ''for'', ''are'', ''with'', ''this'', ''that'',
      ''news'', ''info'', ''update'', ''post'', ''share'', ''here'', ''there'',
      ''official'', ''main'', ''real'', ''true'', ''new'', ''old'']"

definition isCommonWord :: "string \<Rightarrow> bool" where
  "isCommonWord word = (toLowerCase word \<in> set commonWords)"

definition suspicious :: "string list" where
  "suspicious =
     [''admin'', ''support'', ''help'', ''bot'', ''official'',
      ''scam'', ''fake'', ''test'', ''example'', ''sample'']"

definition isSuspiciousUsername :: "string \<Rightarrow> bool" where
  "isSuspiciousUsername uname = (toLowerCase uname \<in> set suspicious)"

text \<open>The callback of \<open>links.filter\<close>, one early return after the other.\<close>

definition quality_ok :: "link \<Rightarrow> bool" where
  "quality_ok l =
     (if confidence l < 30 then False
      else if username l = [] \<or> length (username l) < 5 then False
      else if isCommonWord (username l) then False
      else if isSuspiciousUsername (username l) then False
      else True)"

definition ultraQualityFilter :: "link list \<Rightarrow> string \<Rightarrow> link list" where
  "ultraQualityFilter links searchUsername = filter quality_ok links"

section \<open>Ranker\<close>

text \<open>The number returned by the comparator passed to \<open>links.sort\<close>.\<close>

definition source_count :: "link \<Rightarrow> nat" where
  "source_count l = length (undef_or (mergedSources (metadata l)) []) + 1"

definition rank_cmp :: "string \<Rightarrow> link \<Rightarrow> link \<Rightarrow> rat" where
  "rank_cmp searchUsername a b =
     (let aExact = (toLowerCase (username a) = toLowerCase searchUsername);
          bExact = (toLowerCase (username b) = toLowerCase searchUsername) in
      if aExact \<and> \<not> bExact then - 1
      else if \<not> aExact \<and> bExact then 1
      else if confidence b \<noteq> confidence a
        then num_or (confidence b) 0 - num_or (confidence a) 0
      else let aScore = score_or0 (redditScore (redditSource (metadata a)));
               bScore = score_or0 (redditScore (redditSource (metadata b))) in
        if bScore \<noteq> aScore then of_int (bScore - aScore)
        else of_int (int (source_count b) - int (source_count a)))"

text \<open>
  \<open>Array.prototype.sort(compare)\<close> is stable, and with a comparator that is a consistent
  ordering its result is the one stable sorted arrangement, whatever algorithm the engine
  runs. Insertion from the right computes it: an element goes in front of the first element
  that it does not have to follow.
\<close>

fun insort_cmp :: "('a \<Rightarrow> 'a \<Rightarrow> rat) \<Rightarrow> 'a \<Rightarrow> 'a list \<Rightarrow> 'a list" where
  "insort_cmp cmp x [] = [x]"
| "insort_cmp cmp x (y # ys) = (if cmp x y \<le> 0 then x # y # ys else y # insort_cmp cmp x ys)"

definition js_sort :: "('a \<Rightarrow> 'a \<Rightarrow> rat) \<Rightarrow> 'a list \<Rightarrow> 'a list" where
  "js_sort cmp xs = foldr (insort_cmp cmp) xs []"

definition ultraIntelligentRanking :: "link list \<Rightarrow> string \<Rightarrow> link list" where
  "ultraIntelligentRanking links searchUsername = js_sort (rank_cmp searchUsername) links"

text \<open>
  The order the specification describes, written out: exact matches of the search
  identifier first, then higher confidence, then higher Reddit score of the candidate's own
  source, then more sources. \<open>rank_keys\<close> are the four keys of a candidate.
\<close>

definition is_exact :: "string \<Rightarrow> link \<Rightarrow> bool" where
  "is_exact searchUsername l = (toLowerCase (username l) = toLowerCase searchUsername)"

definition rank_keys :: "string \<Rightarrow> link \<Rightarrow> bool \<times> rat \<times> int \<times> nat" where
  "rank_keys searchUsername l =
     (is_exact searchUsername l, confidence l,
      score_or0 (redditScore (redditSource (metadata l))), source_count l)"

fun keys_before :: "bool \<times> rat \<times> int \<times> nat \<Rightarrow> bool \<times> rat \<times> int \<times> nat \<Rightarrow> bool" where
  "keys_before (e1, c1, s1, n1) (e2, c2, s2, n2) =
     ((e1 \<and> \<not> e2) \<or> (e1 = e2 \<and> (c1 > c2 \<or> (c1 = c2 \<and> (s1 > s2 \<or> (s1 = s2 \<and> n1 \<ge> n2))))))"

section \<open>Post-processing pipeline\<close>

text \<open>\<open>enrichMetadata\<close> with \<open>getConfidenceLevel\<close> and \<open>calculateQualityScore\<close>.\<close>

definition getConfidenceLevel :: "rat \<Rightarrow> string" where
  "getConfidenceLevel c =
     (if c \<ge> 80 then ''very_high''
      else if c \<ge> 60 then ''high''
      else if c \<ge> 40 then ''medium''
      else if c \<ge> 20 then ''low''
      else ''very_low'')"

definition calculateQualityScore :: "link \<Rightarrow> rat" where
  "calculateQualityScore l =
     (let src = redditSource (metadata l) in
      min (min (num_or (confidence l) 0) 40
           + min (of_int (score_or0 (redditScore src)) / 10) 20
           + of_nat (length (undef_or (mergedSources (metadata l)) [])) * 5
           + bonus (includes_str (foundIn src) ''telegram'') 15
           + bonus (\<not> isInviteLink (metadata l)) 10
           + bonus (verified l) 10)
          100)"

definition enrich :: "string \<Rightarrow> link \<Rightarrow> link" where
  "enrich uname l =
     l\<lparr>metadata := (metadata l)\<lparr>enrichment :=
        Some \<lparr>originalSearchUsername = uname,
              confidenceLevel = getConfidenceLevel (confidence l),
              qualityScore = calculateQualityScore l\<rparr>\<rparr>\<rparr>"

definition enrichMetadata :: "link list \<Rightarrow> string \<Rightarrow> link list" where
  "enrichMetadata links uname = map (enrich uname) links"

text \<open>
  \<open>ultraIntelligentProcessing\<close> from the extracted links on: deduplication, scoring,
  filtering, enrichment, ranking.
\<close>

definition process_links :: "link list \<Rightarrow> string \<Rightarrow> link list" where
  "process_links telegramLinks uname =
     (let deduplicatedLinks = ultraIntelligentDeduplication telegramLinks;
          scoredLinks = ultraAdvancedScoring deduplicatedLinks uname;
          highQualityLinks = ultraQualityFilter scoredLinks uname;
          enrichedLinks = enrichMetadata highQualityLinks uname
      in ultraIntelligentRanking enrichedLinks uname)"

section \<open>Variation generator\<close>

text \<open>\<open>capitalizeFirst\<close>: \<open>str.charAt(0).toUpperCase() + str.slice(1).toLowerCase()\<close>.\<close>

definition capitalizeFirst :: "string \<Rightarrow> string" where
  "capitalizeFirst str = toUpperCase (take 1 str) @ toLowerCase (drop 1 str)"

text \<open>\<open>s.replace(/_/g, r)\<close>.\<close>

definition replace_underscores :: "string \<Rightarrow> string \<Rightarrow> string" where
  "replace_underscores r s = concat (map (\<lambda>c. if c = CHR ''_'' then r else [c]) s)"

text \<open>
  \<open>/\d+$/\<close>: the match is the whole run of digits at the end of the string, so \<open>test\<close> asks
  for a last character that is a digit and \<open>replace(/\d+$/, '')\<close> removes the run.
\<close>

definition is_digit :: "char \<Rightarrow> bool" where
  "is_digit c = (let n = (of_char c :: nat) in 48 \<le> n \<and> n \<le> 57)"

definition ends_with_digits :: "string \<Rightarrow> bool" where
  "ends_with_digits s = (s \<noteq> [] \<and> is_digit (last s))"

definition strip_trailing_digits :: "string \<Rightarrow> string" where
  "strip_trailing_digits s = rev (dropWhile is_digit (rev s))"

text \<open>The decimal text of a loop counter, as the concatenation \<open>base + i\<close> produces it.\<close>

definition digit_char :: "nat \<Rightarrow> char" where
  "digit_char d = char_of (d + 48)"

fun decimal_text :: "nat \<Rightarrow> string" where
  "decimal_text n =
     (if 10 \<le> n then decimal_text (n div 10) @ [digit_char (n mod 10)] else [digit_char n])"

text \<open>\<open>Set.add\<close>: a set of strings in insertion order.\<close>

definition set_add :: "string list \<Rightarrow> string \<Rightarrow> string list" where
  "set_add variations v = (if v \<in> set variations then variations else variations @ [v])"

text \<open>The arguments of the \<open>variations.add\<close> calls of \<open>generateMassiveVariations\<close>, in order.\<close>

definition separator_variations :: "string \<Rightarrow> string list" where
  "separator_variations original =
     (if includes_str original ''_''
      then [replace_underscores '''' original,
            replace_underscores ''-'' original,
            replace_underscores ''.'' original]
      else [original @ ''_'', original @ ''-'']
           @ concat (map (\<lambda>i. [take i original @ ''_'' @ drop i original,
                                 take i original @ ''-'' @ drop i original])
                         [1 ..< length original]))"

definition numeric_variations :: "string \<Rightarrow> string list" where
  "numeric_variations original =
     (if ends_with_digits original
      then map (\<lambda>i. strip_trailing_digits original @ decimal_text i) [0 ..< 21]
      else map (\<lambda>i. original @ decimal_text i) [0 ..< 21])"

definition prefixes :: "string list" where
  "prefixes = [''the'', ''real'', ''official'', ''main'', ''new'', ''crypto'', ''btc'']"

definition suffixes :: "string list" where
  "suffixes = [''official'', ''real'', ''main'', ''channel'', ''group'', ''bot'']"

definition affix_variations :: "string \<Rightarrow> string list" where
  "affix_variations original =
     concat (map (\<lambda>prefix. [prefix @ original, prefix @ ''_'' @ original]) prefixes)
     @ concat (map (\<lambda>suffix. [original @ suffix, original @ ''_'' @ suffix]) suffixes)"

definition truncation_variations :: "string \<Rightarrow> string list" where
  "truncation_variations original =
     map (\<lambda>len. take len original) [max 3 (length original - 3) ..< length original]"

definition generateMassiveVariations :: "string \<Rightarrow> string list" where
  "generateMassiveVariations uname =
     (let original = toLowerCase uname;
          added = [original, toUpperCase uname, capitalizeFirst uname]
                  @ separator_variations original
                  @ numeric_variations original
                  @ affix_variations original
                  @ truncation_variations original;
          variations = foldl set_add [] added
      in take 100 (filter (\<lambda>v. length v \<ge> 3 \<and> length v \<le> 35) variations))"

text \<open>Candidates for the filter and the ranker.\<close>

definition mk_link :: "string \<Rightarrow> rat \<Rightarrow> int option \<Rightarrow> reddit_source list option \<Rightarrow> link" where
  "mk_link uname c s ms =
     \<lparr>url = ''https://t.me/'' @ uname, username = uname, confidence = c, verified = False,
      metadata = \<lparr>searchMethod = ''ultra_extraction'', isInviteLink = False,
                  redditSource = \<lparr>postUrl = ''https://reddit.com/r/telegram/comments/9'',
                                  postTitle = ''Telegram links'', redditScore = s,
                                  foundIn = ''r/telegram''\<rparr>,
                  mergedSources = ms, enrichment = None\<rparr>\<rparr>"

definition rank_input :: "link list" where
  "rank_input =
     [mk_link ''cryptohub_news'' 70 (Some 5) None,
      mk_link ''cryptohub_vip'' 90 None None,
      mk_link ''CryptoHub'' 40 (Some 1) None,
      mk_link ''cryptohub_chat'' 70 (Some 5) (Some [src_a]),
      mk_link ''cryptohub_one'' 70 (Some 9) None,
      mk_link ''cryptohub_two'' 70 (Some 5) None]"

definition filter_input :: "link list" where
  "filter_input =
     [mk_link ''cryptohub_news'' 30 None None,
      mk_link ''cryptohub_vip'' 29 None None,
      mk_link ''hub1'' 90 None None,
      mk_link ''Telegram'' 90 None None,
      mk_link ''SUPPORT'' 90 None None,
      mk_link ''Example'' 90 None None,
      mk_link ''cryptohub'' 100 None None]"

section \<open>Entry point with options and cache\<close>

text \<open>
  The fields of \<open>options\<close> that \<open>searchWithAdvancedOptions\<close> destructures and uses; \<open>None\<close> is
  a field left out, for which the default of the destructuring pattern applies
  (\<open>phases\<close> and \<open>timeFilter\<close> are destructured and never read; \<open>includeStats\<close> only adds
  statistics computed from the results).
\<close>

record options =
  useCache :: "bool option"
  exportFormat :: "string option"
  maxResults :: "int option"
  minConfidence :: "rat option"
  includeStats :: "bool option"
  subredditFilter :: "string option"

text \<open>
  The cache is a \<open>Map\<close> from the key \<open>reddit_ultra_<username>_<JSON of options>\<close> to
  \<open>{data, timestamp}\<close>. The key is modelled by the pair it is computed from, timestamps are
  milliseconds.
\<close>

record cache_entry =
  data :: "link list"
  timestamp :: int

type_synonym cache = "((string \<times> options) \<times> cache_entry) list"

definition cacheExpiry :: int where
  "cacheExpiry = 10 * 60 * 1000"

definition getCachedResults :: "cache \<Rightarrow> int \<Rightarrow> string \<Rightarrow> options \<Rightarrow> link list option" where
  "getCachedResults c now uname opts =
     (case map_of c (uname, opts) of
        Some cached \<Rightarrow> if now - timestamp cached < cacheExpiry then Some (data cached) else None
      | None \<Rightarrow> None)"

text \<open>
  \<open>setCachedResults\<close>: store, then with more than 100 entries delete the oldest one, the
  first entry of the entries sorted by timestamp.
\<close>

definition setCachedResults :: "cache \<Rightarrow> int \<Rightarrow> string \<Rightarrow> options \<Rightarrow> link list \<Rightarrow> cache" where
  "setCachedResults c now uname opts rs =
     (let c' = AList.update (uname, opts) \<lparr>data = rs, timestamp = now\<rparr> c in
      if length c' > 100
      then (case js_sort (\<lambda>a b. of_int (timestamp (snd a) - timestamp (snd b))) c' of
              oldest # _ \<Rightarrow> AList.delete (fst oldest) c'
            | [] \<Rightarrow> c')
      else c')"

text \<open>\<open>xs.slice(0, end)\<close> for an integer \<open>end\<close>: a negative \<open>end\<close> counts from the end of the array.\<close>

definition slice0 :: "'a list \<Rightarrow> int \<Rightarrow> 'a list" where
  "slice0 xs e = (if e < 0 then take (nat (int (length xs) + e)) xs else take (nat e) xs)"

text \<open>
  \<open>searchTelegramGroupsUltraExhaustive\<close>: authentication, the eight query phases and the link
  extraction talk to Reddit; they are the parameter \<open>gather\<close>, which fails with a message
  (authentication throws) or delivers the extracted links. The post-processing of the
  links is \<^const>\<open>process_links\<close>.
\<close>

definition searchTelegramGroupsUltraExhaustive ::
    "(string \<Rightarrow> string + link list) \<Rightarrow> string \<Rightarrow> string + link list" where
  "searchTelegramGroupsUltraExhaustive gather uname =
     (case gather uname of
        Inl err \<Rightarrow> Inl err
      | Inr telegramLinks \<Rightarrow> Inr (process_links telegramLinks uname))"

text \<open>
  What the returned promise resolves to: the response object (its metadata and statistics
  are computed from \<open>results\<close> and left out), the cached array, or the export of the results
  in the requested format (its text is left out). A rejected promise is \<open>Inl\<close>.
\<close>

datatype reply =
    Response "link list" nat
  | CachedResults "link list"
  | Exported string "link list"

fun results_of :: "string + reply \<Rightarrow> link list" where
  "results_of (Inr (Response rs n)) = rs"
| "results_of (Inr (CachedResults rs)) = rs"
| "results_of (Inr (Exported fmt rs)) = rs"
| "results_of (Inl err) = []"

text \<open>
  The outcome of one call: the reply, the cache afterwards, and whether the search (and
  with it the provider calls) was started.
\<close>

record outcome =
  reply :: "string + reply"
  cache_after :: cache
  searched :: bool

definition searchWithAdvancedOptions ::
    "(string \<Rightarrow> string + link list) \<Rightarrow> cache \<Rightarrow> int \<Rightarrow> int \<Rightarrow> string \<Rightarrow> options \<Rightarrow> outcome" where
  "searchWithAdvancedOptions gather c t_lookup t_store uname opts =
     (let use = undef_or (useCache opts) True;
          fmt = undef_or (exportFormat opts) ''json'';
          maxRes = undef_or (maxResults opts) 1000;
          minConf = undef_or (minConfidence opts) 0;
          subFilter = undef_or (subredditFilter opts) '''' in
      case (if use then getCachedResults c t_lookup uname opts else None) of
        Some cached \<Rightarrow> \<lparr>reply = Inr (CachedResults cached), cache_after = c, searched = False\<rparr>
      | None \<Rightarrow>
          (case searchTelegramGroupsUltraExhaustive gather uname of
             Inl err \<Rightarrow> \<lparr>reply = Inl err, cache_after = c, searched = True\<rparr>
           | Inr results \<Rightarrow>
               let byConfidence = filter (\<lambda>r. confidence r \<ge> minConf) results;
                   bySubreddit =
                     (if subFilter \<noteq> ''''
                      then filter (\<lambda>r. includes_str (foundIn (redditSource (metadata r))) subFilter)
                             byConfidence
                      else byConfidence);
                   filteredResults = slice0 bySubreddit maxRes
               in \<lparr>reply = Inr (if fmt \<noteq> ''json'' then Exported fmt filteredResults
                                 else Response filteredResults (length filteredResults)),
                   cache_after = (if use then setCachedResults c t_store uname opts filteredResults
                                  else c),
                   searched = True\<rparr>))"

text \<open>Sample options and a sample gathering phase that finds two candidates.\<close>

definition default_options :: options where
  "default_options = \<lparr>useCache = None, exportFormat = None, maxResults = None,
                       minConfidence = None, includeStats = None, subredditFilter = None\<rparr>"

definition gather_two :: "string \<Rightarrow> string + link list" where
  "gather_two uname =
     Inr [mk_link ''cryptohub_one'' 70 (Some 9) None, mk_link ''cryptohub_two'' 70 (Some 5) None]"

text \<open>
  What a result list has to satisfy for given options, with the defaults for fields left
  out; the bound on the length is stated for a \<open>maxResults\<close> that is not negative.
\<close>

definition results_ok :: "options \<Rightarrow> link list \<Rightarrow> bool" where
  "results_ok opts rs =
     (list_all (\<lambda>r. confidence r \<ge> undef_or (minConfidence opts) 0) rs \<and>
      (0 \<le> undef_or (maxResults opts) 1000 \<longrightarrow>
         int (length rs) \<le> undef_or (maxResults opts) 1000))"

definition cache_ok :: "cache \<Rightarrow> bool" where
  "cache_ok c = list_all (\<lambda>p. results_ok (snd (fst p)) (data (snd p))) c"

text \<open>
  A service instance starts with an empty cache, and only \<open>searchWithAdvancedOptions\<close> writes
  to it. \<open>run_calls\<close> performs a sequence of calls (each with its gathering phase, the clock
  readings at lookup and at store, the identifier and the options) and pairs the options of
  every call with its reply.
\<close>

type_synonym call = "(string \<Rightarrow> string + link list) \<times> int \<times> int \<times> string \<times> options"

fun run_calls :: "cache \<Rightarrow> call list \<Rightarrow> (options \<times> (string + reply)) list" where
  "run_calls c [] = []"
| "run_calls c ((gather, t_lookup, t_store, uname, opts) # calls) =
     (let out = searchWithAdvancedOptions gather c t_lookup t_store uname opts
      in (opts, reply out) # run_calls (cache_after out) calls)"

text \<open>Two calls with the same identifier and options, the second within the cache's lifetime.\<close>

definition sample_calls :: "call list" where
  "sample_calls =
     [(gather_two, 0, 1, ''cryptohub'',
       default_options\<lparr>maxResults := Some 1, minConfidence := Some 50\<rparr>),
      (gather_two, 2, 3, ''cryptohub'',
       default_options\<lparr>maxResults := Some 1, minConfidence := Some 50\<rparr>)]"

section \<open>Properties of the deduplicator\<close>

lemma lower_char_idem: "lower_char (lower_char c) = lower_char c"
  by (simp add: lower_char_def Let_def)

lemma toLowerCase_idem: "toLowerCase (toLowerCase s) = toLowerCase s"
  by (simp add: toLowerCase_def lower_char_idem)

lemma toLowerCase_drop: "toLowerCase (drop n s) = drop n (toLowerCase s)"
  by (simp add: toLowerCase_def drop_map)

lemma toLowerCase_butlast: "toLowerCase (butlast s) = butlast (toLowerCase s)"
  by (simp add: toLowerCase_def map_butlast)

lemma lowered_drop: "toLowerCase s = s \<Longrightarrow> toLowerCase (drop n s) = drop n s"
  by (simp add: toLowerCase_drop)

lemma lowered_butlast: "toLowerCase s = s \<Longrightarrow> toLowerCase (butlast s) = butlast s"
  by (simp add: toLowerCase_butlast)

lemma lowered_strip_scheme: "toLowerCase s = s \<Longrightarrow> toLowerCase (strip_scheme s) = strip_scheme s"
  by (simp add: strip_scheme_def lowered_drop)

lemma lowered_strip_www: "toLowerCase s = s \<Longrightarrow> toLowerCase (strip_www s) = strip_www s"
  by (simp add: strip_www_def lowered_drop)

lemma lowered_strip_trailing_slash:
  "toLowerCase s = s \<Longrightarrow> toLowerCase (strip_trailing_slash s) = strip_trailing_slash s"
  by (simp add: strip_trailing_slash_def lowered_butlast)

lemma normalize_lower: "toLowerCase (normalizeTelegramUrl u) = normalizeTelegramUrl u"
  unfolding normalizeTelegramUrl_def
  by (intro lowered_strip_trailing_slash lowered_strip_www lowered_strip_scheme toLowerCase_idem)

lemma dedup_key_normalize: "dedup_key l = normalizeTelegramUrl (url l)"
  by (simp add: dedup_key_def normalize_lower)

lemma dedup_key_merge_replace: "dedup_key (merge_replace l e) = dedup_key l"
  by (simp add: dedup_key_def merge_replace_def)

lemma dedup_key_merge_absorb: "dedup_key (merge_absorb l e) = dedup_key e"
  by (simp add: dedup_key_def merge_absorb_def)

lemma set_update_subset: "set (AList.update k v m) \<subseteq> insert (k, v) (set m)"
  by (induction m) auto

lemma keyed_update:
  assumes "keyed m" and "dedup_key v = k"
  shows "keyed (AList.update k v m)"
proof -
  have "distinct (map fst (AList.update k v m))"
    using assms(1) by (simp add: keyed_def distinct_update)
  moreover have "\<forall>p \<in> set (AList.update k v m). dedup_key (snd p) = fst p"
    using assms set_update_subset[of k v m] by (fastforce simp: keyed_def list_all_iff)
  ultimately show ?thesis
    by (auto simp: keyed_def list_all_iff)
qed

lemma keyed_lookup: "keyed m \<Longrightarrow> map_of m k = Some e \<Longrightarrow> dedup_key e = k"
  by (auto simp: keyed_def list_all_iff dest: map_of_SomeD)

lemma keyed_step: "keyed m \<Longrightarrow> keyed (dedup_step m l)"
  by (auto simp: dedup_step_def Let_def dedup_key_merge_replace dedup_key_merge_absorb
      intro!: keyed_update dest: keyed_lookup split: option.splits)

lemma keyed_foldl: "keyed m \<Longrightarrow> keyed (foldl dedup_step m links)"
  by (induction links arbitrary: m) (simp_all add: keyed_step)

lemma keyed_keys: "keyed m \<Longrightarrow> map dedup_key (map snd m) = map fst m"
  by (induction m) (auto simp: keyed_def)

lemma dedup_distinct_urls:
  "distinct (map (\<lambda>l. normalizeTelegramUrl (url l)) (ultraIntelligentDeduplication links))"
proof -
  have k: "keyed (foldl dedup_step [] links)"
    by (rule keyed_foldl) (simp add: keyed_def)
  have "map (\<lambda>l. normalizeTelegramUrl (url l)) (ultraIntelligentDeduplication links)
        = map dedup_key (map snd (foldl dedup_step [] links))"
    by (simp add: ultraIntelligentDeduplication_def dedup_key_normalize)
  also have "\<dots> = map fst (foldl dedup_step [] links)"
    by (rule keyed_keys[OF k])
  finally show ?thesis
    using k by (simp add: keyed_def)
qed




section \<open>Properties of the scorers and of the later stages\<close>

lemma clamp100_range: "0 \<le> clamp100 c \<and> clamp100 c \<le> 100"
  by (simp add: clamp100_def)

lemma score_link_range:
  "0 \<le> confidence (score_link u l) \<and> confidence (score_link u l) \<le> 100"
  by (simp add: score_link_def Let_def clamp100_range)

lemma scoring_range:
  "l \<in> set (ultraAdvancedScoring links u) \<Longrightarrow> 0 \<le> confidence l \<and> confidence l \<le> 100"
  by (auto simp: ultraAdvancedScoring_def score_link_range)

lemma confidence_merge_replace: "confidence (merge_replace l e) = confidence l"
  by (simp add: merge_replace_def)

lemma confidence_merge_absorb: "confidence (merge_absorb l e) = confidence e"
  by (simp add: merge_absorb_def)

lemma update_all:
  "\<forall>p \<in> set m. Q (snd p) \<Longrightarrow> Q v \<Longrightarrow> \<forall>p \<in> set (AList.update k v m). Q (snd p)"
  by (induction m) auto

lemma dedup_step_confidences:
  assumes m: "\<forall>p \<in> set m. confidence (snd p) \<in> C" and l: "confidence l \<in> C"
  shows "\<forall>p \<in> set (dedup_step m l). confidence (snd p) \<in> C"
proof (cases "map_of m (dedup_key l)")
  case None
  then have "dedup_step m l = AList.update (dedup_key l) l m"
    by (simp add: dedup_step_def)
  then show ?thesis
    using update_all[of m "\<lambda>x. confidence x \<in> C" l] m l by simp
next
  case (Some e)
  then have "(dedup_key l, e) \<in> set m"
    by (rule map_of_SomeD)
  with m have e: "confidence e \<in> C"
    by force
  show ?thesis
  proof (cases "num_or (confidence l) 0 > num_or (confidence e) 0")
    case True
    with Some have "dedup_step m l = AList.update (dedup_key l) (merge_replace l e) m"
      by (simp add: dedup_step_def)
    then show ?thesis
      using update_all[of m "\<lambda>x. confidence x \<in> C" "merge_replace l e"] m l
      by (simp add: confidence_merge_replace)
  next
    case False
    with Some have "dedup_step m l = AList.update (dedup_key l) (merge_absorb l e) m"
      by (simp add: dedup_step_def)
    then show ?thesis
      using update_all[of m "\<lambda>x. confidence x \<in> C" "merge_absorb l e"] m e
      by (simp add: confidence_merge_absorb)
  qed
qed

lemma dedup_foldl_confidences:
  "\<forall>p \<in> set m. confidence (snd p) \<in> C \<Longrightarrow> \<forall>l \<in> set links. confidence l \<in> C \<Longrightarrow>
   \<forall>p \<in> set (foldl dedup_step m links). confidence (snd p) \<in> C"
proof (induction links arbitrary: m)
  case Nil
  then show ?case by simp
next
  case (Cons l links)
  from Cons.prems have "\<forall>p \<in> set (dedup_step m l). confidence (snd p) \<in> C"
    by (intro dedup_step_confidences) simp_all
  moreover from Cons.prems(2) have "\<forall>l \<in> set links. confidence l \<in> C"
    by simp
  ultimately have "\<forall>p \<in> set (foldl dedup_step (dedup_step m l) links). confidence (snd p) \<in> C"
    by (rule Cons.IH)
  then show ?case by simp
qed

lemma dedup_confidences:
  assumes "\<forall>l \<in> set links. confidence l \<in> C"
  shows "\<forall>l \<in> set (ultraIntelligentDeduplication links). confidence l \<in> C"
proof -
  have "\<forall>p \<in> set (foldl dedup_step [] links). confidence (snd p) \<in> C"
    using assms by (intro dedup_foldl_confidences) simp_all
  then show ?thesis
    by (simp add: ultraIntelligentDeduplication_def)
qed

lemma filter_subset: "set (ultraQualityFilter links u) \<subseteq> set links"
  by (simp add: ultraQualityFilter_def)

lemma confidence_enrich: "confidence (enrich u l) = confidence l"
  by (simp add: enrich_def)

lemma enrich_confidences:
  "l \<in> set (enrichMetadata links u) \<Longrightarrow> \<exists>l0 \<in> set links. confidence l = confidence l0"
  by (auto simp: enrichMetadata_def confidence_enrich)

lemma mset_insort_cmp: "mset (insort_cmp cmp x ys) = add_mset x (mset ys)"
  by (induction ys) simp_all

lemma mset_js_sort: "mset (js_sort cmp xs) = mset xs"
  by (induction xs) (simp_all add: js_sort_def mset_insort_cmp)

lemma set_ranking: "set (ultraIntelligentRanking links u) = set links"
proof -
  have "mset (ultraIntelligentRanking links u) = mset links"
    by (simp only: ultraIntelligentRanking_def mset_js_sort)
  then show ?thesis
    by (rule mset_eq_setD)
qed

lemma process_links_range:
  assumes "l \<in> set (process_links links u)"
  shows "0 \<le> confidence l \<and> confidence l \<le> 100"
proof -
  define scored where "scored = ultraAdvancedScoring (ultraIntelligentDeduplication links) u"
  have "process_links links u
        = ultraIntelligentRanking (enrichMetadata (ultraQualityFilter scored u) u) u"
    by (simp only: process_links_def Let_def scored_def)
  with assms have "l \<in> set (enrichMetadata (ultraQualityFilter scored u) u)"
    by (simp only: set_ranking)
  then obtain l0 where l0: "l0 \<in> set (ultraQualityFilter scored u)" "confidence l = confidence l0"
    using enrich_confidences by blast
  from l0(1) filter_subset have "l0 \<in> set scored"
    by blast
  then have "0 \<le> confidence l0 \<and> confidence l0 \<le> 100"
    unfolding scored_def by (rule scoring_range)
  with l0(2) show ?thesis
    by simp
qed


lemma basic_range:
  "0 \<le> calculateBasicConfidence d u \<and> calculateBasicConfidence d u \<le> 100"
  by (simp add: calculateBasicConfidence_def Let_def clamp100_range)

lemma advanced_range:
  "0 \<le> calculateAdvancedConfidence e s u p \<and> calculateAdvancedConfidence e s u p \<le> 100"
  by (simp add: calculateAdvancedConfidence_def Let_def clamp100_range)

text \<open>
  C3. Each of the three scorers returns a confidence between 0 and 100, whatever it is given
  (the clamp is their last step). The stages around them do not compute confidences: every
  confidence leaving the deduplicator, the quality filter, the enrichment and the ranker is
  the confidence of one of the candidates that entered it. Hence every candidate returned
  by the post-processing pipeline has a confidence between 0 and 100.
\<close>

theorem confidence_bounds:
  "(0 \<le> calculateBasicConfidence d u \<and> calculateBasicConfidence d u \<le> 100) \<and>
   (0 \<le> calculateAdvancedConfidence e s u p \<and> calculateAdvancedConfidence e s u p \<le> 100) \<and>
   (\<forall>l \<in> set (ultraAdvancedScoring links u). 0 \<le> confidence l \<and> confidence l \<le> 100) \<and>
   (\<forall>l \<in> set (ultraIntelligentDeduplication links). confidence l \<in> confidence ` set links) \<and>
   (\<forall>l \<in> set (ultraQualityFilter links u). confidence l \<in> confidence ` set links) \<and>
   (\<forall>l \<in> set (enrichMetadata links u). confidence l \<in> confidence ` set links) \<and>
   (\<forall>l \<in> set (ultraIntelligentRanking links u). confidence l \<in> confidence ` set links) \<and>
   (\<forall>l \<in> set (process_links links u). 0 \<le> confidence l \<and> confidence l \<le> 100)"
proof (intro conjI ballI)
  fix l assume "l \<in> set (ultraAdvancedScoring links u)"
  then show "0 \<le> confidence l" "confidence l \<le> 100"
    using scoring_range by blast+
next
  fix l assume "l \<in> set (ultraIntelligentDeduplication links)"
  then show "confidence l \<in> confidence ` set links"
    using dedup_confidences[of links "confidence ` set links"] by blast
next
  fix l assume "l \<in> set (ultraQualityFilter links u)"
  then show "confidence l \<in> confidence ` set links"
    using filter_subset by blast
next
  fix l assume "l \<in> set (enrichMetadata links u)"
  then show "confidence l \<in> confidence ` set links"
    using enrich_confidences by blast
next
  fix l assume "l \<in> set (ultraIntelligentRanking links u)"
  then show "confidence l \<in> confidence ` set links"
    by (simp add: set_ranking)
next
  fix l assume "l \<in> set (process_links links u)"
  then show "0 \<le> confidence l" "confidence l \<le> 100"
    using process_links_range by blast+
qed (simp_all add: basic_range advanced_range)


theorem confidence_bounds_witness:
  "(0 \<le> calculateBasicConfidence post_b ''sample_chan'' \<and>
    calculateBasicConfidence post_a ''sample_chan'' \<le> 100) \<and>
   (0 \<le> calculateAdvancedConfidence ''sample_chan'' (Some 60) ''sample_chan'' 2 \<and>
    calculateAdvancedConfidence ''sample_chan'' (Some 60) ''sample_chan'' 2 \<le> 100) \<and>
   list_all (\<lambda>l. 0 \<le> confidence l \<and> confidence l \<le> 100)
     (ultraAdvancedScoring [link_a, link_c] ''sample_chan'') \<and>
   list_all (\<lambda>l. 0 \<le> confidence l \<and> confidence l \<le> 100)
     (process_links [link_a, link_b, link_c] ''sample_chan'') \<and>
   length (process_links [link_a, link_b, link_c] ''sample_chan'') = 1"
proof -
  have n: "length (process_links [link_a, link_b, link_c] ''sample_chan'') = 1"
    by code_simp
  show ?thesis
    using confidence_bounds[of post_b "''sample_chan''" "''sample_chan''" "Some 60" 2
        "[link_a, link_c]"]
      confidence_bounds[of post_a "''sample_chan''" "''sample_chan''" "Some 60" 2
        "[link_a, link_b, link_c]"] n
    by (simp add: list_all_iff)
qed

section \<open>Properties of the quality filter and of the ranker\<close>

lemma quality_ok_iff:
  "quality_ok l \<longleftrightarrow>
     confidence l \<ge> 30 \<and> length (username l) \<ge> 5 \<and>
     toLowerCase (username l) \<notin> set commonWords \<and>
     toLowerCase (username l) \<notin> set suspicious"
  by (auto simp: quality_ok_def isCommonWord_def isSuspiciousUsername_def)

text \<open>
  C6. The quality filter returns, in input order, exactly the candidates whose confidence
  is at least 30, whose username has at least 5 characters, and whose lowercased username
  is neither in the common-word list nor in the suspicious list; the suspicious list
  contains admin, support, scam, fake and test.
\<close>

theorem quality_filter_exact:
  "ultraQualityFilter links u =
     filter (\<lambda>l. confidence l \<ge> 30 \<and> length (username l) \<ge> 5 \<and>
                 toLowerCase (username l) \<notin> set commonWords \<and>
                 toLowerCase (username l) \<notin> set suspicious) links \<and>
   set [''admin'', ''support'', ''scam'', ''fake'', ''test''] \<subseteq> set suspicious"
proof
  show "ultraQualityFilter links u =
     filter (\<lambda>l. confidence l \<ge> 30 \<and> length (username l) \<ge> 5 \<and>
                 toLowerCase (username l) \<notin> set commonWords \<and>
                 toLowerCase (username l) \<notin> set suspicious) links"
    unfolding ultraQualityFilter_def by (rule filter_cong) (simp_all add: quality_ok_iff)
  show "set [''admin'', ''support'', ''scam'', ''fake'', ''test''] \<subseteq> set suspicious"
    by (simp add: suspicious_def)
qed

theorem quality_filter_exact_witness:
  "map username (ultraQualityFilter filter_input ''cryptohub'') = [''cryptohub_news'', ''cryptohub''] \<and>
   map username (filter (\<lambda>l. confidence l \<ge> 30 \<and> length (username l) \<ge> 5 \<and>
                 toLowerCase (username l) \<notin> set commonWords \<and>
                 toLowerCase (username l) \<notin> set suspicious) filter_input)
     = [''cryptohub_news'', ''cryptohub'']"
proof -
  have "map username (ultraQualityFilter filter_input ''cryptohub'') = [''cryptohub_news'', ''cryptohub'']"
    by code_simp
  then show ?thesis
    using quality_filter_exact[of filter_input "''cryptohub''"] by simp
qed

text \<open>
  The comparator is the lexicographic order on the four keys: it agrees with the linear
  order on \<open>sort_key\<close>'s keys below, so the library's facts about stable sorting apply.
\<close>

lemma rank_cmp_le:
  "rank_cmp u a b \<le> 0 \<longleftrightarrow> keys_before (rank_keys u a) (rank_keys u b)"
  by (auto simp: rank_cmp_def rank_keys_def is_exact_def num_or_def Let_def)

lemma keys_before_lex:
  "keys_before (e1, c1, s1, n1) (e2, c2, s2, n2) \<longleftrightarrow>
     (\<not> e1, - c1, - s1, - int n1) \<le> (\<not> e2, - c2, - s2, - int n2)"
  by auto

lemma rank_cmp_lex:
  "rank_cmp u a b \<le> 0 \<longleftrightarrow>
     (case rank_keys u a of (e, c, s, n) \<Rightarrow> (\<not> e, - c, - s, - int n))
     \<le> (case rank_keys u b of (e, c, s, n) \<Rightarrow> (\<not> e, - c, - s, - int n))"
  unfolding rank_cmp_le by (cases "rank_keys u a"; cases "rank_keys u b") (simp only: keys_before_lex prod.case)

lemma insort_cmp_key:
  "insort_cmp (rank_cmp u) x ys =
     insort_key (\<lambda>l. case rank_keys u l of (e, c, s, n) \<Rightarrow> (\<not> e, - c, - s, - int n)) x ys"
  by (induction ys) (simp_all add: rank_cmp_lex)

lemma ranking_sort_key:
  "ultraIntelligentRanking links u =
     sort_key (\<lambda>l. case rank_keys u l of (e, c, s, n) \<Rightarrow> (\<not> e, - c, - s, - int n)) links"
  by (induction links) (simp_all add: ultraIntelligentRanking_def js_sort_def insort_cmp_key)


lemma lex_keys_inj:
  "(case kl of (e, c, s, n) \<Rightarrow> (\<not> e, - c, - s, - int n))
     = (case k of (e, c, s, n) \<Rightarrow> (\<not> e, - c, - s, - int n)) \<longleftrightarrow> kl = k"
  for kl k :: "bool \<times> rat \<times> int \<times> nat"
  by (cases kl; cases k) auto

text \<open>
  C5. The ranker returns a permutation of its input, sorted by the four keys in sequence
  (exact case-insensitive match of the search identifier first, then descending confidence,
  then descending Reddit score of the candidate's own source, then descending number of
  sources), and candidates with the same four keys keep their input order.
\<close>

theorem ranking_sorted_stable_permutation:
  "mset (ultraIntelligentRanking links u) = mset links \<and>
   sorted_wrt (\<lambda>a b. keys_before (rank_keys u a) (rank_keys u b))
     (ultraIntelligentRanking links u) \<and>
   (\<forall>k. filter (\<lambda>l. rank_keys u l = k) (ultraIntelligentRanking links u)
        = filter (\<lambda>l. rank_keys u l = k) links)"
proof (intro conjI allI)
  let ?key = "\<lambda>l. case rank_keys u l of (e, c, s, n) \<Rightarrow> (\<not> e, - c, - s, - int n)"
  show "mset (ultraIntelligentRanking links u) = mset links"
    by (simp only: ultraIntelligentRanking_def mset_js_sort)
  have "sorted (map ?key (sort_key ?key links))"
    by (rule sorted_sort_key)
  then have "sorted_wrt (\<lambda>a b. ?key a \<le> ?key b) (ultraIntelligentRanking links u)"
    by (simp only: sorted_map ranking_sort_key)
  then show "sorted_wrt (\<lambda>a b. keys_before (rank_keys u a) (rank_keys u b))
               (ultraIntelligentRanking links u)"
    by (simp only: rank_cmp_lex[symmetric] rank_cmp_le)
  fix k :: "bool \<times> rat \<times> int \<times> nat"
  have "filter (\<lambda>l. ?key l = (case k of (e, c, s, n) \<Rightarrow> (\<not> e, - c, - s, - int n)))
          (sort_key ?key links)
        = filter (\<lambda>l. ?key l = (case k of (e, c, s, n) \<Rightarrow> (\<not> e, - c, - s, - int n))) links"
    by (rule sort_key_stable)
  then show "filter (\<lambda>l. rank_keys u l = k) (ultraIntelligentRanking links u)
             = filter (\<lambda>l. rank_keys u l = k) links"
    by (simp only: lex_keys_inj ranking_sort_key)
qed

theorem ranking_sorted_stable_permutation_witness:
  "map username (ultraIntelligentRanking rank_input ''cryptohub'')
     = [''CryptoHub'', ''cryptohub_vip'', ''cryptohub_one'', ''cryptohub_chat'',
        ''cryptohub_news'', ''cryptohub_two''] \<and>
   mset (ultraIntelligentRanking rank_input ''cryptohub'') = mset rank_input \<and>
   sorted_wrt (\<lambda>a b. keys_before (rank_keys ''cryptohub'' a) (rank_keys ''cryptohub'' b))
     (ultraIntelligentRanking rank_input ''cryptohub'') \<and>
   filter (\<lambda>l. rank_keys ''cryptohub'' l = (False, 70, 5, 1))
     (ultraIntelligentRanking rank_input ''cryptohub'')
     = filter (\<lambda>l. rank_keys ''cryptohub'' l = (False, 70, 5, 1)) rank_input"
proof -
  have "map username (ultraIntelligentRanking rank_input ''cryptohub'')
     = [''CryptoHub'', ''cryptohub_vip'', ''cryptohub_one'', ''cryptohub_chat'',
        ''cryptohub_news'', ''cryptohub_two'']"
    by code_simp
  then show ?thesis
    using ranking_sorted_stable_permutation[of rank_input "''cryptohub''"] by blast
qed

section \<open>Magnitudes of the scoring signals\<close>

lemma similarity_range:
  "0 \<le> calculateUsernameSimilarity a b \<and> calculateUsernameSimilarity a b \<le> 1"
proof -
  have "(of_nat m - of_nat d) / of_nat m \<le> (1::rat)" for m d :: nat
    by (cases "m = 0") (simp_all add: divide_le_eq)
  then show ?thesis
    by (simp add: calculateUsernameSimilarity_def Let_def)
qed

text \<open>
  C8 (as amended). In \<open>ultraAdvancedScoring\<close> the signal classes can add at most 20 (search
  method, the pattern-specificity signal), 30 (similarity), 40 (specialization) and 45
  (popularity), and each maximum is reached; in \<open>calculateAdvancedConfidence\<close> the pattern
  bonus is between 10 and 30. The scam/fake penalty is 25 when it applies: larger than each
  single increment for popularity (10, 15, 20), search method (at most 20), canonical handle
  (10), crypto subreddit (15), trust keyword (15) and merged source (5), equal to the
  telegram-subreddit increment (25) and smaller than the similarity bonus of an exact match
  (30).
\<close>

theorem signal_magnitudes:
  "(0 \<le> method_bonus m \<and> method_bonus m \<le> 20 \<and> method_bonus ''direct_extraction'' = 20) \<and>
   (0 \<le> similarity_bonus a b \<and> similarity_bonus a b \<le> 30 \<and> similarity_bonus a a = 30) \<and>
   (specialization_bonus f \<in> {0, 15, 25, 40} \<and> specialization_bonus ''r/TelegramCrypto'' = 40) \<and>
   (popularity_bonus s \<in> {0, 10, 25, 45} \<and> popularity_bonus (Some 201) = 45) \<and>
   (10 \<le> pattern_bonus p \<and> pattern_bonus p \<le> 30 \<and> pattern_bonus 2 = 30) \<and>
   scam_penalty t \<in> {0, 25} \<and>
   handle_bonus i \<in> {0, 10} \<and>
   trust_bonus t \<in> {0, 15, 30} \<and>
   corroboration_bonus ms = 5 * of_nat (length (undef_or ms []))"
proof (intro conjI)
  show "0 \<le> method_bonus m" "method_bonus m \<le> 20" "method_bonus ''direct_extraction'' = 20"
    by (simp_all add: method_bonus_def)
  show "0 \<le> similarity_bonus a b" "similarity_bonus a b \<le> 30"
    using similarity_range[of a b] by (simp_all add: similarity_bonus_def)
  show "similarity_bonus a a = 30"
    by (simp add: similarity_bonus_def calculateUsernameSimilarity_def)
  show "specialization_bonus f \<in> {0, 15, 25, 40}"
    by (simp add: specialization_bonus_def bonus_def Let_def)
  show "specialization_bonus ''r/TelegramCrypto'' = 40"
    by code_simp
  show "popularity_bonus s \<in> {0, 10, 25, 45}"
    by (simp add: popularity_bonus_def bonus_def Let_def)
  show "popularity_bonus (Some 201) = 45"
    by (simp add: popularity_bonus_def bonus_def score_or0_def)
  show "10 \<le> pattern_bonus p" "pattern_bonus p \<le> 30"
    by (simp_all add: pattern_bonus_def patternBonuses_def num_or_def nth_Cons' )
  show "pattern_bonus 2 = 30"
    by (simp add: pattern_bonus_def patternBonuses_def num_or_def)
  show "scam_penalty t \<in> {0, 25}"
    by (simp add: scam_penalty_def bonus_def Let_def)
  show "handle_bonus i \<in> {0, 10}"
    by (simp add: handle_bonus_def bonus_def)
  show "trust_bonus t \<in> {0, 15, 30}"
    by (simp add: trust_bonus_def bonus_def Let_def)
  show "corroboration_bonus ms = 5 * of_nat (length (undef_or ms []))"
    by (simp add: corroboration_bonus_def)
qed

theorem signal_magnitudes_witness:
  "method_bonus ''inference'' \<le> 20 \<and> similarity_bonus ''cryptohub_vip'' ''cryptohub'' \<le> 30 \<and>
   specialization_bonus ''r/crypto'' \<in> {0, 15, 25, 40} \<and> popularity_bonus (Some 60) \<in> {0, 10, 25, 45} \<and>
   pattern_bonus 12 \<le> 30 \<and> scam_penalty ''SCAM fake giveaway'' \<in> {0, 25} \<and>
   corroboration_bonus (Some [src_a, src_b]) = 10"
  using signal_magnitudes[of "''inference''" "''cryptohub_vip''" "''cryptohub''" "''r/crypto''"
      "Some 60" 12 "''SCAM fake giveaway''" False "Some [src_a, src_b]"]
  by (simp add: undef_or_def)

text \<open>
  C8 (as stated) fails: the popularity maximum 45 is not below the similarity maximum 30,
  the specialization maximum 40 is not below the search-method maximum 20, and the
  scam/fake penalty 25 does not exceed the similarity bonus 30 of an exact match.
\<close>

theorem signal_order_counterexample:
  "popularity_bonus (Some 201) = 45 \<and>
   similarity_bonus ''sample_chan'' ''sample_chan'' = 30 \<and>
   specialization_bonus ''r/TelegramCrypto'' = 40 \<and>
   method_bonus ''direct_extraction'' = 20 \<and>
   scam_penalty ''SCAM fake giveaway'' = 25 \<and>
   \<not> popularity_bonus (Some 201) < similarity_bonus ''sample_chan'' ''sample_chan'' \<and>
   \<not> specialization_bonus ''r/TelegramCrypto'' < method_bonus ''direct_extraction'' \<and>
   \<not> similarity_bonus ''sample_chan'' ''sample_chan'' < scam_penalty ''SCAM fake giveaway''"
  by code_simp

section \<open>Properties of the variation generator\<close>

lemma distinct_set_add: "distinct vs \<Longrightarrow> distinct (set_add vs v)"
  by (simp add: set_add_def)

lemma distinct_foldl_set_add: "distinct vs \<Longrightarrow> distinct (foldl set_add vs added)"
  by (induction added arbitrary: vs) (simp_all add: distinct_set_add)

text \<open>
  C9. \<open>generateMassiveVariations\<close> is a total function built from string operations that
  cannot throw; for every identifier (in particular every printable-ASCII identifier of
  length at least 3) it returns a duplicate-free list of at most 100 variations, each
  between 3 and 35 characters long.
\<close>

theorem variations_bounded:
  "distinct (generateMassiveVariations u) \<and>
   length (generateMassiveVariations u) \<le> 100 \<and>
   (\<forall>v \<in> set (generateMassiveVariations u). 3 \<le> length v \<and> length v \<le> 35)"
proof (intro conjI ballI)
  show "distinct (generateMassiveVariations u)"
    unfolding generateMassiveVariations_def Let_def
    by (intro distinct_take distinct_filter distinct_foldl_set_add) simp
  show "length (generateMassiveVariations u) \<le> 100"
    by (simp add: generateMassiveVariations_def Let_def)
  fix v assume "v \<in> set (generateMassiveVariations u)"
  then have "v \<in> set (filter (\<lambda>v. length v \<ge> 3 \<and> length v \<le> 35)
                (foldl set_add [] ([toLowerCase u, toUpperCase u, capitalizeFirst u]
                  @ separator_variations (toLowerCase u)
                  @ numeric_variations (toLowerCase u)
                  @ affix_variations (toLowerCase u)
                  @ truncation_variations (toLowerCase u))))"
    unfolding generateMassiveVariations_def Let_def by (rule in_set_takeD)
  then show "3 \<le> length v" "length v \<le> 35"
    by simp_all
qed

theorem variations_bounded_witness:
  "distinct (generateMassiveVariations ''cryptoHub'') \<and>
   length (generateMassiveVariations ''cryptoHub'') = 71 \<and>
   list_all (\<lambda>v. 3 \<le> length v \<and> length v \<le> 35) (generateMassiveVariations ''cryptoHub'')"
proof -
  have "length (generateMassiveVariations ''cryptoHub'') = 71"
    by code_simp
  then show ?thesis
    using variations_bounded[of "''cryptoHub''"] by (simp add: list_all_iff)
qed

section \<open>Properties of the entry point\<close>

lemma slice0_Nil: "slice0 [] e = []"
  by (simp add: slice0_def)

lemma slice0_zero: "slice0 xs 0 = []"
  by (simp add: slice0_def)

lemma no_confidence_above_100:
  "filter (\<lambda>r. confidence r \<ge> 101) (process_links ls u) = []"
proof -
  have "\<not> confidence r \<ge> 101" if "r \<in> set (process_links ls u)" for r
    using process_links_range[OF that] by simp
  then show ?thesis
    by (simp add: filter_empty_conv)
qed

text \<open>
  C4 (as amended). \<open>searchWithAdvancedOptions\<close> does not validate its options. Called with
  \<open>minConfidence = 101\<close> or \<open>maxResults = 0\<close> and without a fresh cache entry for the same
  identifier and options, it starts the search; when the search fails the call fails with
  the search's own error, and otherwise it returns normally with an empty result list.
\<close>

theorem search_runs_without_validation:
  assumes "minConfidence opts = Some 101 \<or> maxResults opts = Some 0"
    and "(if undef_or (useCache opts) True then getCachedResults c t1 uname opts else None) = None"
  shows "searched (searchWithAdvancedOptions gather c t1 t2 uname opts) \<and>
         (case gather uname of
            Inl err \<Rightarrow> reply (searchWithAdvancedOptions gather c t1 t2 uname opts) = Inl err
          | Inr ls \<Rightarrow>
              (\<exists>r. reply (searchWithAdvancedOptions gather c t1 t2 uname opts) = Inr r \<and>
                   results_of (Inr r) = []))"
proof (cases "gather uname")
  case (Inl err)
  with assms(2) show ?thesis
    by (simp add: searchWithAdvancedOptions_def searchTelegramGroupsUltraExhaustive_def Let_def)
next
  case (Inr ls)
  define minConf where "minConf = undef_or (minConfidence opts) 0"
  define byConfidence where
    "byConfidence = filter (\<lambda>r. confidence r \<ge> minConf) (process_links ls uname)"
  define subFilter where "subFilter = undef_or (subredditFilter opts) ''''"
  define bySubreddit where
    "bySubreddit = (if subFilter \<noteq> ''''
       then filter (\<lambda>r. includes_str (foundIn (redditSource (metadata r))) subFilter) byConfidence
       else byConfidence)"
  define final where "final = slice0 bySubreddit (undef_or (maxResults opts) 1000)"
  have "final = []"
    using assms(1)
  proof
    assume "minConfidence opts = Some 101"
    then have "byConfidence = []"
      by (simp add: byConfidence_def minConf_def undef_or_def no_confidence_above_100)
    then show ?thesis
      by (simp add: final_def bySubreddit_def slice0_Nil)
  next
    assume "maxResults opts = Some 0"
    then show ?thesis
      by (simp add: final_def undef_or_def slice0_zero)
  qed
  moreover have "searchWithAdvancedOptions gather c t1 t2 uname opts =
      \<lparr>reply = Inr (if undef_or (exportFormat opts) ''json'' \<noteq> ''json''
                      then Exported (undef_or (exportFormat opts) ''json'') final
                      else Response final (length final)),
       cache_after = (if undef_or (useCache opts) True
                      then setCachedResults c t2 uname opts final else c),
       searched = True\<rparr>"
    using assms(2) Inr
    by (simp add: searchWithAdvancedOptions_def searchTelegramGroupsUltraExhaustive_def Let_def
        final_def bySubreddit_def subFilter_def byConfidence_def minConf_def)
  ultimately show ?thesis
    using Inr by simp
qed

theorem search_runs_without_validation_witness:
  "searched (searchWithAdvancedOptions gather_two [] 0 1 ''cryptohub''
              (default_options\<lparr>minConfidence := Some 101\<rparr>)) \<and>
   (\<exists>r. reply (searchWithAdvancedOptions gather_two [] 0 1 ''cryptohub''
                 (default_options\<lparr>minConfidence := Some 101\<rparr>)) = Inr r \<and>
        results_of (Inr r) = [])"
proof -
  have h1: "minConfidence (default_options\<lparr>minConfidence := Some 101\<rparr>) = Some 101
            \<or> maxResults (default_options\<lparr>minConfidence := Some 101\<rparr>) = Some 0"
    by simp
  have h2: "(if undef_or (useCache (default_options\<lparr>minConfidence := Some 101\<rparr>)) True
             then getCachedResults [] 0 ''cryptohub'' (default_options\<lparr>minConfidence := Some 101\<rparr>)
             else None) = None"
    by (simp add: getCachedResults_def)
  show ?thesis
    using search_runs_without_validation[OF h1 h2, of gather_two 1]
    by (simp add: gather_two_def)
qed

text \<open>
  C4 (as stated) fails: with an empty cache, \<open>minConfidence = 101\<close> and \<open>maxResults = 0\<close> are
  both accepted, the search is started, and the call resolves to a response with no results.
\<close>

theorem out_of_range_options_accepted:
  "reply (searchWithAdvancedOptions gather_two [] 0 1 ''cryptohub''
            (default_options\<lparr>minConfidence := Some 101\<rparr>)) = Inr (Response [] 0) \<and>
   searched (searchWithAdvancedOptions gather_two [] 0 1 ''cryptohub''
            (default_options\<lparr>minConfidence := Some 101\<rparr>)) \<and>
   reply (searchWithAdvancedOptions gather_two [] 0 1 ''cryptohub''
            (default_options\<lparr>maxResults := Some 0\<rparr>)) = Inr (Response [] 0) \<and>
   searched (searchWithAdvancedOptions gather_two [] 0 1 ''cryptohub''
            (default_options\<lparr>maxResults := Some 0\<rparr>))"
  by code_simp

lemma set_slice0: "set (slice0 xs e) \<subseteq> set xs"
  by (auto simp: slice0_def dest: in_set_takeD)

lemma length_slice0: "0 \<le> e \<Longrightarrow> int (length (slice0 xs e)) \<le> e"
  by (simp add: slice0_def)

lemma results_ok_filtered:
  assumes "set ys \<subseteq> set (filter (\<lambda>r. confidence r \<ge> undef_or (minConfidence opts) 0) xs)"
  shows "results_ok opts (slice0 ys (undef_or (maxResults opts) 1000))"
proof -
  have "set (slice0 ys (undef_or (maxResults opts) 1000)) \<subseteq> set ys"
    by (rule set_slice0)
  with assms have "\<forall>r \<in> set (slice0 ys (undef_or (maxResults opts) 1000)).
      confidence r \<ge> undef_or (minConfidence opts) 0"
    by auto
  then show ?thesis
    by (simp add: results_ok_def list_all_iff length_slice0)
qed

lemma results_ok_Nil: "results_ok opts []"
  by (simp add: results_ok_def)

lemma cache_ok_lookup:
  assumes "cache_ok c" and "getCachedResults c t uname opts = Some d"
  shows "results_ok opts d"
proof -
  from assms(2) obtain e where e: "map_of c (uname, opts) = Some e" and d: "d = data e"
    by (auto simp: getCachedResults_def split: option.splits if_splits)
  from e have "((uname, opts), e) \<in> set c"
    by (rule map_of_SomeD)
  with assms(1) d show ?thesis
    by (auto simp: cache_ok_def list_all_iff)
qed

lemma set_delete_subset: "set (AList.delete k m) \<subseteq> set m"
  by (auto simp: AList.delete_eq)

lemma cache_ok_set:
  assumes "cache_ok c" and "results_ok opts rs"
  shows "cache_ok (setCachedResults c t uname opts rs)"
proof -
  define c' where "c' = AList.update (uname, opts) \<lparr>data = rs, timestamp = t\<rparr> c"
  have "set c' \<subseteq> insert ((uname, opts), \<lparr>data = rs, timestamp = t\<rparr>) (set c)"
    unfolding c'_def by (rule set_update_subset)
  with assms have c': "cache_ok c'"
    by (auto simp: cache_ok_def list_all_iff)
  have del: "cache_ok (AList.delete k c')" for k
    using c' set_delete_subset[of k c'] by (auto simp: cache_ok_def list_all_iff)
  have "setCachedResults c t uname opts rs = c' \<or>
        (\<exists>k. setCachedResults c t uname opts rs = AList.delete k c')"
    by (auto simp: setCachedResults_def Let_def c'_def split: list.splits)
  with c' del show ?thesis
    by auto
qed

lemma step_ok:
  assumes "cache_ok c"
  shows "results_ok opts (results_of (reply (searchWithAdvancedOptions gather c t1 t2 uname opts))) \<and>
         cache_ok (cache_after (searchWithAdvancedOptions gather c t1 t2 uname opts))"
proof (cases "if undef_or (useCache opts) True then getCachedResults c t1 uname opts else None")
  case (Some cached)
  then have "getCachedResults c t1 uname opts = Some cached"
    by (simp split: if_splits)
  then have "results_ok opts cached"
    by (rule cache_ok_lookup[OF assms])
  with Some assms show ?thesis
    by (simp add: searchWithAdvancedOptions_def Let_def)
next
  case None
  show ?thesis
  proof (cases "gather uname")
    case (Inl err)
    with None assms show ?thesis
      by (simp add: searchWithAdvancedOptions_def searchTelegramGroupsUltraExhaustive_def Let_def
          results_ok_Nil)
  next
    case (Inr ls)
    define byConfidence where
      "byConfidence = filter (\<lambda>r. confidence r \<ge> undef_or (minConfidence opts) 0) (process_links ls uname)"
    define bySubreddit where
      "bySubreddit = (if undef_or (subredditFilter opts) [] \<noteq> []
         then filter (\<lambda>r. includes_str (foundIn (redditSource (metadata r)))
                           (undef_or (subredditFilter opts) [])) byConfidence
         else byConfidence)"
    define final where "final = slice0 bySubreddit (undef_or (maxResults opts) 1000)"
    have "set bySubreddit \<subseteq> set byConfidence"
      by (auto simp: bySubreddit_def)
    then have ok: "results_ok opts final"
      unfolding final_def byConfidence_def by (rule results_ok_filtered)
    have out: "searchWithAdvancedOptions gather c t1 t2 uname opts =
        \<lparr>reply = Inr (if undef_or (exportFormat opts) ''json'' \<noteq> ''json''
                        then Exported (undef_or (exportFormat opts) ''json'') final
                        else Response final (length final)),
         cache_after = (if undef_or (useCache opts) True
                        then setCachedResults c t2 uname opts final else c),
         searched = True\<rparr>"
      using None Inr
      by (simp add: searchWithAdvancedOptions_def searchTelegramGroupsUltraExhaustive_def Let_def
          final_def bySubreddit_def byConfidence_def)
    have "cache_ok (setCachedResults c t2 uname opts final)"
      using assms ok by (rule cache_ok_set)
    with ok assms show ?thesis
      by (simp add: out)
  qed
qed

lemma run_calls_ok:
  "cache_ok c \<Longrightarrow> list_all (\<lambda>p. results_ok (fst p) (results_of (snd p))) (run_calls c calls)"
proof (induction calls arbitrary: c)
  case Nil
  then show ?case by simp
next
  case (Cons call calls)
  obtain gather t1 t2 uname opts where call: "call = (gather, t1, t2, uname, opts)"
    by (cases call)
  from step_ok[OF Cons.prems, of opts gather t1 t2 uname]
  have ok: "results_ok opts (results_of (reply (searchWithAdvancedOptions gather c t1 t2 uname opts)))"
    and c': "cache_ok (cache_after (searchWithAdvancedOptions gather c t1 t2 uname opts))"
    by simp_all
  from Cons.IH[OF c'] ok show ?case
    by (simp add: call Let_def)
qed

text \<open>
  C7 (as amended). In every sequence of calls on a service that started with an empty
  cache, every reply satisfies the options of its own call: each returned candidate has a
  confidence of at least \<open>minConfidence\<close> (0 when left out), and when \<open>maxResults\<close> (1000 when
  left out) is not negative the result list has at most that many entries. This holds for
  fresh results and for results served from the cache.
\<close>

theorem results_respect_options:
  "list_all (\<lambda>p. list_all (\<lambda>r. confidence r \<ge> undef_or (minConfidence (fst p)) 0)
                     (results_of (snd p)) \<and>
                  (0 \<le> undef_or (maxResults (fst p)) 1000 \<longrightarrow>
                     int (length (results_of (snd p))) \<le> undef_or (maxResults (fst p)) 1000))
     (run_calls [] calls)"
proof -
  have "cache_ok []"
    by (simp add: cache_ok_def)
  then have "list_all (\<lambda>p. results_ok (fst p) (results_of (snd p))) (run_calls [] calls)"
    by (rule run_calls_ok)
  then show ?thesis
    by (simp only: results_ok_def)
qed

theorem results_respect_options_witness:
  "map (\<lambda>p. map username (results_of (snd p))) (run_calls [] sample_calls)
     = [[''cryptohub_one''], [''cryptohub_one'']] \<and>
   list_all (\<lambda>p. list_all (\<lambda>r. confidence r \<ge> undef_or (minConfidence (fst p)) 0)
                     (results_of (snd p)) \<and>
                  (0 \<le> undef_or (maxResults (fst p)) 1000 \<longrightarrow>
                     int (length (results_of (snd p))) \<le> undef_or (maxResults (fst p)) 1000))
     (run_calls [] sample_calls)"
proof -
  have "map (\<lambda>p. map username (results_of (snd p))) (run_calls [] sample_calls)
     = [[''cryptohub_one''], [''cryptohub_one'']]"
    by code_simp
  then show ?thesis
    using results_respect_options[of sample_calls] by blast
qed

text \<open>
  C7 (as stated) fails for a negative \<open>maxResults\<close>: \<open>slice(0, -1)\<close> drops the last of the two
  results and returns one, which is more than \<open>maxResults = -1\<close> entries.
\<close>

theorem negative_maxResults_counterexample:
  "map username (results_of (reply (searchWithAdvancedOptions gather_two [] 0 1 ''cryptohub''
       (default_options\<lparr>maxResults := Some (- 1)\<rparr>)))) = [''cryptohub_one''] \<and>
   \<not> int (length (results_of (reply (searchWithAdvancedOptions gather_two [] 0 1 ''cryptohub''
       (default_options\<lparr>maxResults := Some (- 1)\<rparr>)))))
     \<le> undef_or (maxResults (default_options\<lparr>maxResults := Some (- 1)\<rparr>)) 1000"
  by code_simp

section \<open>Uniqueness in the final results\<close>

lemma url_score_link: "url (score_link u l) = url l"
  by (simp add: score_link_def Let_def)

lemma url_enrich: "url (enrich u l) = url l"
  by (simp add: enrich_def)

lemma distinct_map_js_sort:
  "distinct (map f (js_sort cmp xs)) \<longleftrightarrow> distinct (map f xs)"
proof -
  have "mset (map f (js_sort cmp xs)) = mset (map f xs)"
    by (simp add: mset_js_sort)
  then show ?thesis
    by (rule mset_eq_imp_distinct_iff)
qed

lemma process_links_distinct_urls:
  "distinct (map (\<lambda>l. normalizeTelegramUrl (url l)) (process_links links u))"
proof -
  let ?norm = "\<lambda>l. normalizeTelegramUrl (url l)"
  let ?dedup = "ultraIntelligentDeduplication links"
  have "map ?norm (ultraAdvancedScoring ?dedup u) = map ?norm ?dedup"
    by (simp add: ultraAdvancedScoring_def url_score_link)
  then have "distinct (map ?norm (ultraAdvancedScoring ?dedup u))"
    by (simp only: dedup_distinct_urls)
  then have "distinct (map ?norm (ultraQualityFilter (ultraAdvancedScoring ?dedup u) u))"
    unfolding ultraQualityFilter_def by (rule distinct_map_filter)
  moreover have "map ?norm (enrichMetadata xs u) = map ?norm xs" for xs
    by (simp add: enrichMetadata_def url_enrich)
  ultimately show ?thesis
    by (simp only: process_links_def Let_def ultraIntelligentRanking_def distinct_map_js_sort)
qed

text \<open>
  C1. For every input list, no two elements of the list returned by
  \<open>ultraIntelligentDeduplication\<close> have URLs with the same normalized form
  (\<open>normalizeTelegramUrl\<close>: lowercased, scheme, \<open>www.\<close> prefix and trailing slash removed).
  The later stages keep URLs and drop or reorder candidates, so the same holds for the
  ranked list that post-processing returns.
\<close>

theorem dedup_unique_normalized_urls:
  "distinct (map (\<lambda>l. normalizeTelegramUrl (url l)) (ultraIntelligentDeduplication links)) \<and>
   distinct (map (\<lambda>l. normalizeTelegramUrl (url l)) (process_links links u))"
  by (simp only: dedup_distinct_urls process_links_distinct_urls)

theorem dedup_unique_normalized_urls_witness:
  "map (\<lambda>l. normalizeTelegramUrl (url l)) (ultraIntelligentDeduplication [link_a, link_b, link_c])
     = [''t.me/sample_chan''] \<and>
   distinct (map (\<lambda>l. normalizeTelegramUrl (url l))
     (ultraIntelligentDeduplication [link_a, link_b, link_c])) \<and>
   distinct (map (\<lambda>l. normalizeTelegramUrl (url l))
     (process_links [link_a, link_b, link_c] ''sample_chan''))"
proof -
  have "map (\<lambda>l. normalizeTelegramUrl (url l)) (ultraIntelligentDeduplication [link_a, link_b, link_c])
     = [''t.me/sample_chan'']"
    by code_simp
  then show ?thesis
    using dedup_unique_normalized_urls[of "[link_a, link_b, link_c]" "''sample_chan''"] by blast
qed

section \<open>Merges of the deduplicator\<close>

lemma map_of_update_same: "map_of (AList.update k v m) k = Some v"
  by (simp add: update_conv')


lemma provenance_merge_replace:
  "undef_or (mergedSources (metadata l)) [] = [] \<Longrightarrow>
   mset (provenance (merge_replace l e)) = mset (provenance e) + mset (provenance l)"
  by (simp add: provenance_def merge_replace_def undef_or_def)

lemma provenance_merge_absorb:
  "undef_or (mergedSources (metadata l)) [] = [] \<Longrightarrow>
   mset (provenance (merge_absorb l e)) = mset (provenance e) + mset (provenance l)"
  by (simp add: provenance_def merge_absorb_def undef_or_def)

text \<open>One merge: whichever candidate survives, it carries the entries of both.\<close>

lemma merge_step_provenance:
  assumes "map_of m (dedup_key l) = Some e"
    and "undef_or (mergedSources (metadata l)) [] = []"
  shows "\<exists>s. map_of (dedup_step m l) (dedup_key l) = Some s \<and>
             mset (provenance s) = mset (provenance e) + mset (provenance l)"
proof (cases "num_or (confidence l) 0 > num_or (confidence e) 0")
  case True
  then have "map_of (dedup_step m l) (dedup_key l) = Some (merge_replace l e)"
    using assms(1) by (simp add: dedup_step_def map_of_update_same)
  with provenance_merge_replace[OF assms(2)] show ?thesis by blast
next
  case False
  then have "map_of (dedup_step m l) (dedup_key l) = Some (merge_absorb l e)"
    using assms(1) by (simp add: dedup_step_def map_of_update_same)
  with provenance_merge_absorb[OF assms(2)] show ?thesis by blast
qed

text \<open>All provenance entries held in the Map, and how one \<open>Map.set\<close> changes them.\<close>

lemma stored_update_some:
  "map_of m k = Some e \<Longrightarrow>
   mset (concat (map (\<lambda>p. provenance (snd p)) (AList.update k v m))) + mset (provenance e)
   = mset (concat (map (\<lambda>p. provenance (snd p)) m)) + mset (provenance v)"
  by (induction m) (auto simp: ac_simps)

lemma stored_update_none:
  "map_of m k = None \<Longrightarrow>
   mset (concat (map (\<lambda>p. provenance (snd p)) (AList.update k v m)))
   = mset (concat (map (\<lambda>p. provenance (snd p)) m)) + mset (provenance v)"
  by (induction m) (auto simp: ac_simps)

lemma stored_step:
  assumes "mergedSources (metadata l) = None"
  shows "mset (concat (map (\<lambda>p. provenance (snd p)) (dedup_step m l)))
         = mset (concat (map (\<lambda>p. provenance (snd p)) m)) + {#redditSource (metadata l)#}"
proof (cases "map_of m (dedup_key l)")
  case None
  then have "dedup_step m l = AList.update (dedup_key l) l m"
    by (simp add: dedup_step_def)
  with stored_update_none[OF None, of l] assms show ?thesis
    by (simp add: provenance_def undef_or_def)
next
  case (Some e)
  have fresh: "undef_or (mergedSources (metadata l)) [] = []"
    using assms by (simp add: undef_or_def)
  obtain v where v: "dedup_step m l = AList.update (dedup_key l) v m"
    and pv: "mset (provenance v) = mset (provenance e) + mset (provenance l)"
    using Some provenance_merge_replace[OF fresh, of e] provenance_merge_absorb[OF fresh, of e]
    by (cases "num_or (confidence l) 0 > num_or (confidence e) 0") (simp_all add: dedup_step_def)
  have "mset (concat (map (\<lambda>p. provenance (snd p)) (dedup_step m l))) + mset (provenance e)
        = mset (concat (map (\<lambda>p. provenance (snd p)) m)) + mset (provenance l) + mset (provenance e)"
    using stored_update_some[OF Some, of v] by (simp add: v pv ac_simps)
  then have "mset (concat (map (\<lambda>p. provenance (snd p)) (dedup_step m l)))
        = mset (concat (map (\<lambda>p. provenance (snd p)) m)) + mset (provenance l)"
    by simp
  with assms show ?thesis
    by (simp add: provenance_def undef_or_def)
qed

lemma stored_foldl:
  "\<forall>x \<in> set links. mergedSources (metadata x) = None \<Longrightarrow>
   mset (concat (map (\<lambda>p. provenance (snd p)) (foldl dedup_step m links)))
   = mset (concat (map (\<lambda>p. provenance (snd p)) m)) + mset (map (\<lambda>x. redditSource (metadata x)) links)"
proof (induction links arbitrary: m)
  case Nil
  then show ?case by simp
next
  case (Cons l links)
  then have "mergedSources (metadata l) = None" and "\<forall>x \<in> set links. mergedSources (metadata x) = None"
    by simp_all
  with Cons.IH[of "dedup_step m l"] stored_step[of l m] show ?case
    by (simp add: ac_simps)
qed

text \<open>
  C2. The deduplicator receives freshly extracted candidates, none of which carries merged
  sources. Whenever it then merges an incoming candidate (provenance size \<open>n\<close>) with the
  candidate stored under the same normalized URL (provenance size \<open>m\<close>), the survivor's
  provenance consists of exactly the entries of both: its size is \<open>m + n\<close>, hence at
  least \<open>max m n\<close>, whether or not the two overlap. No entry is ever dropped: the
  provenance lists of the output together hold exactly the source entries of the input.
\<close>

theorem dedup_merge_keeps_provenance:
  assumes "\<forall>x \<in> set links. mergedSources (metadata x) = None"
    and "links = pre @ l # post"
    and "map_of (foldl dedup_step [] pre) (dedup_key l) = Some existing"
  shows "(\<exists>s. map_of (foldl dedup_step [] (pre @ [l])) (dedup_key l) = Some s \<and>
              max (length (provenance existing)) (length (provenance l)) \<le> length (provenance s) \<and>
              length (provenance s) = length (provenance existing) + length (provenance l) \<and>
              mset (provenance s) = mset (provenance existing) + mset (provenance l)) \<and>
         mset (concat (map provenance (ultraIntelligentDeduplication links)))
           = mset (map (\<lambda>x. redditSource (metadata x)) links)"
proof
  from assms(1,2) have "undef_or (mergedSources (metadata l)) [] = []"
    by (simp add: undef_or_def)
  with assms(3) obtain s where s: "map_of (dedup_step (foldl dedup_step [] pre) l) (dedup_key l) = Some s"
    and ms: "mset (provenance s) = mset (provenance existing) + mset (provenance l)"
    using merge_step_provenance by blast
  from ms have "size (mset (provenance s)) = size (mset (provenance existing) + mset (provenance l))"
    by simp
  then have len: "length (provenance s) = length (provenance existing) + length (provenance l)"
    by simp
  from s ms len
  show "\<exists>s. map_of (foldl dedup_step [] (pre @ [l])) (dedup_key l) = Some s \<and>
              max (length (provenance existing)) (length (provenance l)) \<le> length (provenance s) \<and>
              length (provenance s) = length (provenance existing) + length (provenance l) \<and>
              mset (provenance s) = mset (provenance existing) + mset (provenance l)"
    by auto
  have "mset (concat (map (\<lambda>p. provenance (snd p)) (foldl dedup_step [] links)))
        = mset (map (\<lambda>x. redditSource (metadata x)) links)"
    using stored_foldl[OF assms(1), of "[]"] by simp
  then show "mset (concat (map provenance (ultraIntelligentDeduplication links)))
           = mset (map (\<lambda>x. redditSource (metadata x)) links)"
    by (simp add: ultraIntelligentDeduplication_def comp_def)
qed

theorem dedup_merge_keeps_provenance_witness:
  "map provenance (ultraIntelligentDeduplication [link_a, link_d, link_b])
     = [[src_a, src_b], [src_d]] \<and>
   (\<exists>s. map_of (foldl dedup_step [] ([link_a, link_d] @ [link_b])) (dedup_key link_b) = Some s \<and>
        max (length (provenance link_a)) (length (provenance link_b)) \<le> length (provenance s) \<and>
        length (provenance s) = length (provenance link_a) + length (provenance link_b) \<and>
        mset (provenance s) = mset (provenance link_a) + mset (provenance link_b)) \<and>
   mset (concat (map provenance (ultraIntelligentDeduplication [link_a, link_d, link_b])))
     = mset (map (\<lambda>x. redditSource (metadata x)) [link_a, link_d, link_b])"
proof -
  have h1: "\<forall>x \<in> set [link_a, link_d, link_b]. mergedSources (metadata x) = None"
    by (simp add: link_a_def link_d_def link_b_def)
  have h2: "[link_a, link_d, link_b] = [link_a, link_d] @ link_b # []"
    by simp
  have h3: "map_of (foldl dedup_step [] [link_a, link_d]) (dedup_key link_b) = Some link_a"
    by code_simp
  have "map provenance (ultraIntelligentDeduplication [link_a, link_d, link_b])
     = [[src_a, src_b], [src_d]]"
    by code_simp
  then show ?thesis
    using dedup_merge_keeps_provenance[OF h1 h2 h3] by blast
qed

section \<open>Ties in the deduplicator\<close>

















end
